theory Spec2Isabelle
  imports
    Complex_Main
    "HOL-Library.Word"
    "HOL-Library.Multiset"
    "HOL-Library.Char_ord"
    "HOL-Library.List_Lexorder"
    "HOL-Library.Product_Lexorder"
begin

text \<open>
  The repository holds a static site builder and a set of browser-only demo widgets. The
  widgets are React components: each is modelled by a record of its state cells and one
  function per handler, with the clock and the random numbers a handler reads as arguments.
  The definitions come first, the facts about them after.
\<close>

chapter \<open>The program\<close>

section \<open>Platform semantics shared by the widgets\<close>

text \<open>
  A JavaScript string is a sequence of UTF-16 code units. Text that is ASCII in the source
  is written as an Isabelle string and converted with \<open>js\<close>.
\<close>

type_synonym js_string = "16 word list"

definition js :: "string \<Rightarrow> js_string" where
  "js s = map (\<lambda>c. of_nat (of_char c)) s"

text \<open>
  The remainder operator \<open>%\<close> of JavaScript on integral numbers: the result takes the sign
  of the dividend (truncated division). The divisor is never zero where the widgets use it.
\<close>

definition js_rem :: "int \<Rightarrow> int \<Rightarrow> int" where
  "js_rem a b = sgn a * (\<bar>a\<bar> mod \<bar>b\<bar>)"

section \<open>Testimonials carousel (Testimonials component)\<close>

record Testimonial =
  t_id :: int
  t_name :: string
  t_role :: string
  t_content :: string
  t_rating :: int
  t_avatar :: "nat list"  \<comment> \<open>the emoji, as Unicode code points\<close>

definition testimonials :: "Testimonial list" where
  "testimonials =
   [ \<lparr> t_id = 1, t_name = ''Duyet Le'', t_role = ''Creator & Maintainer'',
       t_content = ''duyetbot has transformed how I work. The agent routing feature is incredible - it automatically handles both quick questions and complex technical challenges.'',
       t_rating = 5, t_avatar = [0x1F468, 0x200D, 0x1F4BB] \<rparr>,
     \<lparr> t_id = 2, t_name = ''Alex Chen'', t_role = ''Data Engineer'',
       t_content = ''The code debugging capabilities are outstanding. It saved me hours on a complex data pipeline issue. The @complex agent really shines for technical work.'',
       t_rating = 5, t_avatar = [0x1F468, 0x200D, 0x1F52C] \<rparr>,
     \<lparr> t_id = 3, t_name = ''Sarah Kim'', t_role = ''Developer'',
       t_content = ''Love the automation features! The bot handles my daily reports, monitoring, and even helps with blog posts. It feels like having a real teammate.'',
       t_rating = 5, t_avatar = [0x1F469, 0x200D, 0x1F4BC] \<rparr>,
     \<lparr> t_id = 4, t_name = ''Marcus Johnson'', t_role = ''DevOps Engineer'',
       t_content = ''The system status dashboard is exactly what I needed. Real-time monitoring of all services with clear health indicators. Makes incident response much faster.'',
       t_rating = 5, t_avatar = [0x1F468, 0x200D, 0x1F680] \<rparr> ]"

text \<open>
  The component state: the two \<open>useState\<close> cells, and whether the interval created by the
  effect is currently registered. The effect depends on \<open>isPaused\<close> only: its cleanup clears
  the interval, and its body registers a new one unless \<open>isPaused\<close> holds.
\<close>

record carousel =
  currentIndex :: int
  isPaused :: bool
  intervalActive :: bool

definition run_effect :: "carousel \<Rightarrow> carousel" where
  "run_effect s = s\<lparr>intervalActive := \<not> isPaused s\<rparr>"

definition mount :: carousel where
  "mount = run_effect \<lparr>currentIndex = 0, isPaused = False, intervalActive = False\<rparr>"

text \<open>
  \<open>setIsPaused\<close>: React keeps the state and runs no effect when the new value equals the old
  one; otherwise the component renders again and the effect runs, its dependency having changed.
\<close>

definition setIsPaused :: "bool \<Rightarrow> carousel \<Rightarrow> carousel" where
  "setIsPaused b s = (if isPaused s = b then s else run_effect (s\<lparr>isPaused := b\<rparr>))"

text \<open>
  The interval's callback, \<open>setCurrentIndex((prev) => (prev + 1) % testimonials.length)\<close>.
  It runs only while the interval is registered; a firing without an interval does not exist,
  and is the identity here.
\<close>

definition interval_fires :: "carousel \<Rightarrow> carousel" where
  "interval_fires s =
     (if intervalActive s
      then s\<lparr>currentIndex := js_rem (currentIndex s + 1) (int (length testimonials))\<rparr>
      else s)"

definition goToSlide :: "int \<Rightarrow> carousel \<Rightarrow> carousel" where
  "goToSlide index s = s\<lparr>currentIndex := index\<rparr>"

definition goToPrevious :: "carousel \<Rightarrow> carousel" where
  "goToPrevious s =
     s\<lparr>currentIndex :=
         js_rem (currentIndex s - 1 + int (length testimonials)) (int (length testimonials))\<rparr>"

definition goToNext :: "carousel \<Rightarrow> carousel" where
  "goToNext s = s\<lparr>currentIndex := js_rem (currentIndex s + 1) (int (length testimonials))\<rparr>"

text \<open>
  \<open>testimonials[currentIndex]\<close>: an index outside the array reads \<open>undefined\<close> in JavaScript.
\<close>

definition currentTestimonial :: "carousel \<Rightarrow> Testimonial option" where
  "currentTestimonial s =
     (if 0 \<le> currentIndex s \<and> currentIndex s < int (length testimonials)
      then Some (testimonials ! nat (currentIndex s)) else None)"

text \<open>
  What can happen to a mounted carousel. The dots are rendered by
  \<open>testimonials.map((_, index) => ...)\<close>, so a dot exists for the indices of the array only.
\<close>

datatype carousel_event =
    IntervalFires
  | MouseEnter
  | MouseLeave
  | ClickPrevious
  | ClickNext
  | ClickDot nat

fun carousel_step :: "carousel_event \<Rightarrow> carousel \<Rightarrow> carousel" where
  "carousel_step IntervalFires s = interval_fires s"
| "carousel_step MouseEnter s = setIsPaused True s"
| "carousel_step MouseLeave s = setIsPaused False s"
| "carousel_step ClickPrevious s = goToPrevious s"
| "carousel_step ClickNext s = goToNext s"
| "carousel_step (ClickDot index) s = goToSlide (int index) s"

fun event_exists :: "carousel_event \<Rightarrow> bool" where
  "event_exists (ClickDot index) = (index < length testimonials)"
| "event_exists _ = True"

fun carousel_run :: "carousel_event list \<Rightarrow> carousel \<Rightarrow> carousel" where
  "carousel_run [] s = s"
| "carousel_run (e # es) s = carousel_run es (carousel_step e s)"

definition index_in_bounds :: "carousel \<Rightarrow> bool" where
  "index_in_bounds s = (0 \<le> currentIndex s \<and> currentIndex s < 4)"

definition effect_in_sync :: "carousel \<Rightarrow> bool" where
  "effect_in_sync s = (intervalActive s = (\<not> isPaused s))"

section \<open>Demo shell (Home page component)\<close>

text \<open>
  The entries of \<open>tabs\<close>. Label and icon are display text, kept as Unicode code points;
  only \<open>id\<close> takes part in the logic.
\<close>

record Tab =
  tab_id :: string
  tab_label :: "nat list"
  tab_icon :: "nat list"

definition code_points :: "string \<Rightarrow> nat list" where
  "code_points s = map of_char s"

definition tabs :: "Tab list" where
  "tabs =
   [ \<lparr> tab_id = ''playground'', tab_label = [0x1F3AE] @ code_points '' Playground'',
       tab_icon = [0x1F3AE] \<rparr>,
     \<lparr> tab_id = ''status'', tab_label = [0x1F4CA] @ code_points '' Status'',
       tab_icon = [0x1F4CA] \<rparr>,
     \<lparr> tab_id = ''features'', tab_label = [0x26A1] @ code_points '' Features'',
       tab_icon = [0x26A1] \<rparr>,
     \<lparr> tab_id = ''config'', tab_label = [0x2699, 0xFE0F] @ code_points '' Config'',
       tab_icon = [0x2699, 0xFE0F] \<rparr>,
     \<lparr> tab_id = ''feedback'', tab_label = [0x1F4AC] @ code_points '' Feedback'',
       tab_icon = [0x1F4AC] \<rparr> ]"

text \<open>The state of the shell is the string held by \<open>useState('playground')\<close>.\<close>

definition initial_activeTab :: string where
  "initial_activeTab = ''playground''"

text \<open>
  The click handler of the button rendered for \<open>tab\<close>: \<open>() => setActiveTab(tab.id)\<close>.
  It does not read the current state.
\<close>

definition click_tab :: "Tab \<Rightarrow> string \<Rightarrow> string" where
  "click_tab tab activeTab = tab_id tab"

fun click_tabs :: "Tab list \<Rightarrow> string \<Rightarrow> string" where
  "click_tabs [] activeTab = activeTab"
| "click_tabs (tab # rest) activeTab = click_tabs rest (click_tab tab activeTab)"

text \<open>
  The content area. Each child is \<open>{activeTab === '...' && <X />}\<close>: the element when the
  comparison holds, and \<open>false\<close>, which React renders as nothing, otherwise.
\<close>

datatype element = Component string | Div "element list"

definition content_children :: "string \<Rightarrow> element option list" where
  "content_children activeTab =
   [ if activeTab = ''playground'' then Some (Component ''ChatDemo'') else None,
     if activeTab = ''status'' then Some (Component ''StatusDashboard'') else None,
     if activeTab = ''features'' then Some (Component ''FeatureComparison'') else None,
     if activeTab = ''config'' then Some (Component ''ConfigPreview'') else None,
     if activeTab = ''feedback''
     then Some (Div [Component ''FeedbackForm'', Component ''Testimonials'']) else None ]"

definition rendered_content :: "string \<Rightarrow> element list" where
  "rendered_content activeTab = List.map_filter id (content_children activeTab)"

section \<open>Configuration preview (ConfigPreview component)\<close>

text \<open>
  \<open>temperature\<close> is a JavaScript number that the component stores, prints and copies;
  no arithmetic is done on it, so it is carried as a real.
\<close>

record Config =
  model :: string
  temperature :: real
  maxTokens :: int
  streaming :: bool
  thinking :: bool
  agentRouting :: bool

definition default_config :: Config where
  "default_config =
     \<lparr> model = ''zai/glm-4.7'', temperature = 0.7, maxTokens = 4096,
       streaming = True, thinking = False, agentRouting = True \<rparr>"

definition models :: "string list" where
  "models = [''zai/glm-4.7'', ''zai/glm-4.7-flash'', ''zai/glm-4.7-reasoning'']"

text \<open>
  \<open>toggleSetting\<close> is called with the keys \<open>'streaming'\<close>, \<open>'thinking'\<close> and
  \<open>'agentRouting'\<close> (the three switches); these are the keys of the boolean fields.
  \<open>prev[key]\<close> reads a field by key, and \<open>{ ...prev, [key]: v }\<close> copies \<open>prev\<close> and then
  stores \<open>v\<close> under the key.
\<close>

datatype setting_key = Streaming | Thinking | AgentRouting

fun read_key :: "setting_key \<Rightarrow> Config \<Rightarrow> bool" where
  "read_key Streaming c = streaming c"
| "read_key Thinking c = thinking c"
| "read_key AgentRouting c = agentRouting c"

fun spread_with :: "Config \<Rightarrow> setting_key \<Rightarrow> bool \<Rightarrow> Config" where
  "spread_with c Streaming v = c\<lparr>streaming := v\<rparr>"
| "spread_with c Thinking v = c\<lparr>thinking := v\<rparr>"
| "spread_with c AgentRouting v = c\<lparr>agentRouting := v\<rparr>"

definition toggleSetting :: "setting_key \<Rightarrow> Config \<Rightarrow> Config" where
  "toggleSetting key prev = spread_with prev key (\<not> read_key key prev)"

text \<open>The object returned by \<open>generateConfigPreview\<close>, which the component prints as JSON.\<close>

record Parameters =
  p_temperature :: real
  p_max_tokens :: int

record Capabilities =
  c_streaming :: bool
  c_thinking :: bool
  c_agent_routing :: bool

record Runtime =
  r_host :: string
  r_node :: string
  r_shell :: string

record Preview =
  pv_agent :: string
  pv_model :: string
  pv_parameters :: Parameters
  pv_capabilities :: Capabilities
  pv_runtime :: Runtime

definition generateConfigPreview :: "Config \<Rightarrow> Preview" where
  "generateConfigPreview config =
     \<lparr> pv_agent = ''main'',
       pv_model = model config,
       pv_parameters =
         \<lparr> p_temperature = temperature config, p_max_tokens = maxTokens config \<rparr>,
       pv_capabilities =
         \<lparr> c_streaming = streaming config, c_thinking = thinking config,
           c_agent_routing = agentRouting config \<rparr>,
       pv_runtime = \<lparr> r_host = ''openclaw'', r_node = ''v22.22.0'', r_shell = ''bash'' \<rparr> \<rparr>"

text \<open>
  The handlers of the settings panel. The sliders deliver \<open>parseFloat(e.target.value)\<close> and
  \<open>parseInt(e.target.value)\<close>; the event carries the parsed number.
\<close>

datatype config_event =
    SelectModel string
  | SlideTemperature real
  | SlideMaxTokens int
  | ClickSwitch setting_key
  | ClickReset

fun config_step :: "config_event \<Rightarrow> Config \<Rightarrow> Config" where
  "config_step (SelectModel m) config = config\<lparr>model := m\<rparr>"
| "config_step (SlideTemperature t) config = config\<lparr>temperature := t\<rparr>"
| "config_step (SlideMaxTokens n) config = config\<lparr>maxTokens := n\<rparr>"
| "config_step (ClickSwitch key) config = toggleSetting key config"
| "config_step ClickReset config = default_config"

text \<open>
  Every render prints \<open>generateConfigPreview()\<close> of the state of that render; nothing is
  kept between renders.
\<close>

definition shown_preview :: "config_event list \<Rightarrow> Preview" where
  "shown_preview events = generateConfigPreview (foldl (\<lambda>c e. config_step e c) default_config events)"

section \<open>Chat demo (ChatDemo component)\<close>

datatype message_type = User | Bot

record Message =
  m_id :: int
  m_type :: message_type
  m_content :: js_string
  m_timestamp :: int  \<comment> \<open>the \<open>Date\<close>, as milliseconds since the epoch\<close>

definition demoResponses :: "js_string list" where
  "demoResponses =
   [ js ''I'm duyetbot! I help with data engineering, infrastructure, and AI projects. What can I assist you with today?'',
     js ''Great question! I use GLM-4.7 as my main model for most tasks, and I can route to specialized agents like @complex for technical work.'',
     js ''I wake up fresh each session, but I maintain memory through files in my workspace. This website is one way I persist my identity.'',
     js ''I'm built on the OpenClaw platform and can use various tools - browser control, file operations, web search, and more!'',
     js ''That's an interesting challenge! Let me think about it... I could help you build a solution using Python or TypeScript.'' ]"

text \<open>
  The component state: the three \<open>useState\<close> cells, and the replies scheduled with
  \<open>setTimeout\<close> that have not run yet, each with its delay in milliseconds.
\<close>

record chat =
  messages :: "Message list"
  input :: js_string
  isTyping :: bool
  scheduled :: "real list"

text \<open>The greeting ends with the waving hand U+1F44B, two code units in UTF-16.\<close>

definition initial_chat :: "int \<Rightarrow> chat" where
  "initial_chat now =
     \<lparr> messages =
         [ \<lparr> m_id = 1, m_type = Bot,
             m_content = js ''Hello! I'm duyetbot, an AI assistant. Try asking me something! ''
                         @ [0xD83D, 0xDC4B],
             m_timestamp = now \<rparr> ],
       input = [], isTyping = False, scheduled = [] \<rparr>"

text \<open>
  \<open>String.prototype.trim\<close> removes the leading and trailing code units that are white space
  or line terminators of ECMAScript: TAB, LF, VT, FF, CR, SP, NBSP, U+1680, U+2000 to U+200A,
  U+2028, U+2029, U+202F, U+205F, U+3000 and U+FEFF.
\<close>

definition js_whitespace :: "16 word \<Rightarrow> bool" where
  "js_whitespace c =
     (c \<in> set [0x09, 0x0A, 0x0B, 0x0C, 0x0D, 0x20, 0xA0, 0x1680,
                0x2028, 0x2029, 0x202F, 0x205F, 0x3000, 0xFEFF]
      \<or> (0x2000 \<le> c \<and> c \<le> 0x200A))"

definition trim :: "js_string \<Rightarrow> js_string" where
  "trim s = rev (dropWhile js_whitespace (rev (dropWhile js_whitespace s)))"

text \<open>
  \<open>handleSend\<close>. \<open>date_now\<close> is what \<open>Date.now()\<close> returns, \<open>new_date\<close> the time of
  \<open>new Date()\<close>, and \<open>random\<close> the value of \<open>Math.random()\<close> in the delay. The empty string
  is the only falsy string, so \<open>!input.trim()\<close> holds when the trimmed input is empty.
\<close>

definition handleSend :: "int \<Rightarrow> int \<Rightarrow> real \<Rightarrow> chat \<Rightarrow> chat" where
  "handleSend date_now new_date random s =
     (if trim (input s) = [] then s
      else
        let userMessage =
              \<lparr> m_id = date_now, m_type = User, m_content = input s, m_timestamp = new_date \<rparr>
        in s\<lparr> messages := messages s @ [userMessage],
              input := [],
              isTyping := True,
              scheduled := scheduled s @ [1000 + random * 1000] \<rparr>)"

text \<open>
  The callback of the timeout, run for the scheduled reply at position \<open>k\<close>: it picks
  \<open>demoResponses[Math.floor(Math.random() * demoResponses.length)]\<close>, appends the bot
  message and switches the typing indicator off.
\<close>

definition bot_reply :: "nat \<Rightarrow> int \<Rightarrow> int \<Rightarrow> real \<Rightarrow> chat \<Rightarrow> chat" where
  "bot_reply k date_now new_date random s =
     (let response = demoResponses ! nat \<lfloor>random * real (length demoResponses)\<rfloor>;
          botMessage =
            \<lparr> m_id = date_now + 1, m_type = Bot, m_content = response, m_timestamp = new_date \<rparr>
      in s\<lparr> messages := messages s @ [botMessage],
            isTyping := False,
            scheduled := take k (scheduled s) @ drop (Suc k) (scheduled s) \<rparr>)"

section \<open>Feedback form (FeedbackForm component)\<close>

record FeedbackData =
  name :: js_string
  email :: js_string
  rating :: int
  category :: string
  message :: js_string

text \<open>
  The component state: the two \<open>useState\<close> cells, and the number of timeouts
  \<open>setTimeout(() => setSubmitted(false), 3000)\<close> that have not run yet.
\<close>

record feedback_form =
  submitted :: bool
  feedback :: FeedbackData
  resets_scheduled :: nat

definition initial_form :: feedback_form where
  "initial_form =
     \<lparr> submitted = False,
       feedback = \<lparr> name = [], email = [], rating = 5, category = ''general'', message = [] \<rparr>,
       resets_scheduled = 0 \<rparr>"

text \<open>
  \<open>handleSubmit\<close> checks nothing: it logs the feedback, sets \<open>submitted\<close> and schedules the
  reset. The feedback data are not touched.
\<close>

definition handleSubmit :: "feedback_form \<Rightarrow> feedback_form" where
  "handleSubmit s = s\<lparr>submitted := True, resets_scheduled := Suc (resets_scheduled s)\<rparr>"

definition reset_fires :: "feedback_form \<Rightarrow> feedback_form" where
  "reset_fires s =
     (if resets_scheduled s = 0 then s
      else s\<lparr>submitted := False, resets_scheduled := resets_scheduled s - 1\<rparr>)"

text \<open>
  What the component returns: the thank-you panel while \<open>submitted\<close> holds, the form with the
  current data otherwise.
\<close>

datatype form_view = ThankYou | FormView FeedbackData

definition render_form :: "feedback_form \<Rightarrow> form_view" where
  "render_form s = (if submitted s then ThankYou else FormView (feedback s))"

text \<open>
  The checks are the browser's, from the attributes of the controls: the name input is
  \<open>type="text" required\<close>, the email input \<open>type="email" required\<close>, the message textarea
  \<open>required\<close>; the category select and the star buttons carry no constraint. A required
  control fails when its value is empty. An email input with a value fails unless the value is
  a valid e-mail address of the HTML standard: one or more of the characters
  \<open>a-z A-Z 0-9 . ! # $ % & ' * + / = ? ^ _ ` { | } ~ -\<close>, then \<open>@\<close>, then labels separated by dots,
  each label 1 to 63 letters, digits or hyphens that neither starts nor ends with a hyphen.
\<close>

definition is_letter_or_digit :: "16 word \<Rightarrow> bool" where
  "is_letter_or_digit c =
     ((0x41 \<le> c \<and> c \<le> 0x5A) \<or> (0x61 \<le> c \<and> c \<le> 0x7A) \<or> (0x30 \<le> c \<and> c \<le> 0x39))"

definition is_local_char :: "16 word \<Rightarrow> bool" where
  "is_local_char c =
     (is_letter_or_digit c
      \<or> c \<in> set [0x2E, 0x21, 0x23, 0x24, 0x25, 0x26, 0x27, 0x2A, 0x2B, 0x2F, 0x3D, 0x3F,
                   0x5E, 0x5F, 0x60, 0x7B, 0x7C, 0x7D, 0x7E, 0x2D])"

fun split_on :: "'a \<Rightarrow> 'a list \<Rightarrow> 'a list list" where
  "split_on sep [] = [[]]"
| "split_on sep (x # xs) =
     (if x = sep then [] # split_on sep xs
      else (case split_on sep xs of
              [] \<Rightarrow> [[x]]
            | part # parts \<Rightarrow> (x # part) # parts))"

definition is_label :: "js_string \<Rightarrow> bool" where
  "is_label l =
     (l \<noteq> [] \<and> length l \<le> 63
      \<and> list_all (\<lambda>c. is_letter_or_digit c \<or> c = 0x2D) l
      \<and> is_letter_or_digit (hd l) \<and> is_letter_or_digit (last l))"

definition valid_email_address :: "js_string \<Rightarrow> bool" where
  "valid_email_address v =
     (case dropWhile (\<lambda>c. c \<noteq> 0x40) v of
        [] \<Rightarrow> False
      | sign # host \<Rightarrow>
          takeWhile (\<lambda>c. c \<noteq> 0x40) v \<noteq> []
          \<and> list_all is_local_char (takeWhile (\<lambda>c. c \<noteq> 0x40) v)
          \<and> list_all is_label (split_on 0x2E host))"

definition form_valid :: "FeedbackData \<Rightarrow> bool" where
  "form_valid fb =
     (name fb \<noteq> []
      \<and> email fb \<noteq> [] \<and> valid_email_address (email fb)
      \<and> message fb \<noteq> [])"

text \<open>
  The user submits the form. The form exists only while the component shows it; the browser
  fires the \<open>submit\<close> event, and so runs \<open>handleSubmit\<close>, only when the controls are valid,
  and otherwise leaves the form on the screen.
\<close>

definition submit_form :: "feedback_form \<Rightarrow> feedback_form" where
  "submit_form s =
     (if submitted s then s
      else if form_valid (feedback s) then handleSubmit s
      else s)"

definition filled_form :: "string \<Rightarrow> string \<Rightarrow> string \<Rightarrow> feedback_form" where
  "filled_form n e m =
     initial_form\<lparr>feedback := (feedback initial_form)\<lparr>name := js n, email := js e, message := js m\<rparr>\<rparr>"

section \<open>Static site builder\<close>

text \<open>
  The build script that turns the markdown posts into pages is not among the source files;
  the posts it reads and a description of it are. This section follows the specification of
  the builder (its sections 3 to 7) instead.
\<close>

text \<open>
  Modelled from the spec: the calendar date of a content item, as (year, month, day). The
  lexicographic order of the triples is the order of the days.
\<close>

type_synonym cal_date = "nat \<times> nat \<times> nat"

text \<open>Modelled from the spec: the length of a month, for the check that a date is valid.\<close>

definition days_in_month :: "nat \<Rightarrow> nat \<Rightarrow> nat" where
  "days_in_month y m =
     (if m = 2 then (if (y mod 4 = 0 \<and> y mod 100 \<noteq> 0) \<or> y mod 400 = 0 then 29 else 28)
      else if m \<in> set [4, 6, 9, 11] then 30 else 31)"

text \<open>Modelled from the spec: "\<open>date\<close> must parse as a valid calendar date at build time".\<close>

fun valid_date :: "cal_date \<Rightarrow> bool" where
  "valid_date (y, m, d) = (1 \<le> m \<and> m \<le> 12 \<and> 1 \<le> d \<and> d \<le> days_in_month y m)"

text \<open>Modelled from the spec: the ContentItem of section 3.\<close>

record ContentItem =
  title :: string
  date :: cal_date
  description :: string
  slug :: string
  body :: string

text \<open>
  Modelled from the spec: a content file as the loader finds it, a file name and the
  frontmatter keys of section 6, of which \<open>title\<close> and \<open>date\<close> may be missing.
\<close>

record ContentFile =
  file_name :: string
  fm_title :: "string option"
  fm_date :: "cal_date option"
  fm_description :: string
  file_body :: string

text \<open>
  Modelled from the spec: the errors of section 7 that concern single items and single
  writes. \<open>MalformedContentError\<close> carries the file path and the name of the field.
\<close>

datatype build_error =
    MalformedContentError string string
  | OutputWriteError string

text \<open>Modelled from the spec: the slug is derived from the file name (its \<open>.md\<close> removed).\<close>

definition slug_of :: "string \<Rightarrow> string" where
  "slug_of f =
     (if 3 \<le> length f \<and> drop (length f - 3) f = ''.md'' then take (length f - 3) f else f)"

text \<open>
  Modelled from the spec: the content loader of section 4.1. A file without title or date, or
  with a date that is no calendar date, fails alone.
\<close>

definition load_item :: "ContentFile \<Rightarrow> build_error + ContentItem" where
  "load_item f =
     (case fm_title f of
        None \<Rightarrow> Inl (MalformedContentError (file_name f) ''title'')
      | Some t \<Rightarrow>
         (case fm_date f of
            None \<Rightarrow> Inl (MalformedContentError (file_name f) ''date'')
          | Some d \<Rightarrow>
             if valid_date d
             then Inr \<lparr> title = t, date = d, description = fm_description f,
                        slug = slug_of (file_name f), body = file_body f \<rparr>
             else Inl (MalformedContentError (file_name f) ''date'')))"


text \<open>Modelled from the spec: the errors of the files that did not load.\<close>

fun load_errors :: "ContentFile list \<Rightarrow> build_error list" where
  "load_errors [] = []"
| "load_errors (f # fs) =
     (case load_item f of Inl e \<Rightarrow> e # load_errors fs | Inr item \<Rightarrow> load_errors fs)"

subsection \<open>Site index\<close>

text \<open>
  Modelled from the spec: the order of the SiteIndex, "sorted by date descending; equal dates
  broken by slug ascending". \<open>precedes a b\<close> holds when \<open>a\<close> may stand before \<open>b\<close>.
\<close>

definition precedes :: "ContentItem \<Rightarrow> ContentItem \<Rightarrow> bool" where
  "precedes a b = (date b < date a \<or> (date a = date b \<and> slug a \<le> slug b))"

text \<open>
  Modelled from the spec: one step of the stable sort of section 5, which puts an item
  before the first item that it precedes.
\<close>

fun insert_item :: "ContentItem \<Rightarrow> ContentItem list \<Rightarrow> ContentItem list" where
  "insert_item x [] = [x]"
| "insert_item x (y # ys) = (if precedes x y then x # y # ys else y # insert_item x ys)"

text \<open>
  Modelled from the spec: the SiteIndex of section 3, built from all items on every build.
\<close>

definition site_index :: "ContentItem list \<Rightarrow> ContentItem list" where
  "site_index items = foldr insert_item items []"

text \<open>
  Modelled from the spec: the HTML output path of section 6, \<open>/{section}/{S}.html\<close>.
\<close>

definition html_path :: "string \<Rightarrow> string \<Rightarrow> string" where
  "html_path sec s = ''/'' @ sec @ ''/'' @ s @ ''.html''"


text \<open>
  Modelled from the spec: a "lightweight reference (slug, title, description, path)" of the
  SiteIndex.
\<close>

record PageRef =
  ref_slug :: string
  ref_title :: string
  ref_description :: string
  ref_path :: string

text \<open>
  Modelled from the spec: the reference to one item; its path is the canonical path of the
  page.
\<close>

definition page_ref :: "string \<Rightarrow> ContentItem \<Rightarrow> PageRef" where
  "page_ref sec item =
     \<lparr> ref_slug = slug item, ref_title = title item, ref_description = description item,
       ref_path = html_path sec (slug item) \<rparr>"

text \<open>
  Modelled from the spec: the discovery index of section 4.3, "enumerating every page with
  its title, description, and canonical path, ordered by date descending, ties broken by slug
  ascending", as the entries it lists in the order it lists them.
\<close>

definition discovery_index :: "string \<Rightarrow> ContentItem list \<Rightarrow> PageRef list" where
  "discovery_index sec items = map (page_ref sec) (site_index items)"

text \<open>
  Modelled from the spec: the feed of section 4.3, "reverse-chronological, covering the same
  set", in the order of the SiteIndex (section 5).
\<close>

definition feed :: "string \<Rightarrow> ContentItem list \<Rightarrow> PageRef list" where
  "feed sec items = map (page_ref sec) (site_index items)"

text \<open>
  Modelled from the spec: the sitemap of section 4.3, "listing every canonical path", in the
  order of the SiteIndex (section 5).
\<close>

definition sitemap :: "string \<Rightarrow> ContentItem list \<Rightarrow> string list" where
  "sitemap sec items = map (\<lambda>item. html_path sec (slug item)) (site_index items)"

subsection \<open>Dual-format renderer and site assembler\<close>

















subsection \<open>Sample content\<close>

text \<open>
  Two posts, two content files (the second without a date), a renderer, and two file systems,
  one that takes every write and one that refuses a single path, for evaluating the builder
  on concrete input.
\<close>

definition post_a :: ContentItem where
  "post_a = \<lparr> title = ''A'', date = (2026, 2, 14), description = ''first'', slug = ''a'',
              body = ''alpha'' \<rparr>"

definition post_b :: ContentItem where
  "post_b = \<lparr> title = ''B'', date = (2026, 2, 16), description = ''second'', slug = ''b'',
              body = ''beta'' \<rparr>"






chapter \<open>Properties\<close>

section \<open>Facts about the carousel\<close>

lemma length_testimonials: "length testimonials = 4"
  by (simp add: testimonials_def)

lemma js_rem_nonneg: "0 \<le> a \<Longrightarrow> 0 < b \<Longrightarrow> js_rem a b = a mod b"
  by (cases "a = 0") (simp_all add: js_rem_def)

lemma effect_in_sync_mount: "effect_in_sync mount"
  by (simp add: effect_in_sync_def mount_def run_effect_def)

lemma effect_in_sync_step: "effect_in_sync s \<Longrightarrow> effect_in_sync (carousel_step e s)"
  by (cases e)
     (auto simp: effect_in_sync_def interval_fires_def setIsPaused_def run_effect_def
        goToPrevious_def goToNext_def goToSlide_def)

lemma interval_fires_paused:
  "\<not> intervalActive s \<Longrightarrow> (interval_fires ^^ n) s = s"
  by (induction n) (simp_all add: interval_fires_def)

lemma hover_stops_interval:
  "effect_in_sync s \<Longrightarrow> \<not> intervalActive (setIsPaused True s)"
  by (auto simp: effect_in_sync_def setIsPaused_def run_effect_def)

lemma index_in_bounds_step:
  assumes "index_in_bounds s" and "event_exists e"
  shows "index_in_bounds (carousel_step e s)"
proof (cases e)
  case IntervalFires
  with assms show ?thesis
    by (auto simp: index_in_bounds_def interval_fires_def length_testimonials js_rem_nonneg)
next
  case MouseEnter
  with assms show ?thesis
    by (auto simp: index_in_bounds_def setIsPaused_def run_effect_def)
next
  case MouseLeave
  with assms show ?thesis
    by (auto simp: index_in_bounds_def setIsPaused_def run_effect_def)
next
  case ClickPrevious
  with assms show ?thesis
    by (auto simp: index_in_bounds_def goToPrevious_def length_testimonials js_rem_nonneg)
next
  case ClickNext
  with assms show ?thesis
    by (auto simp: index_in_bounds_def goToNext_def length_testimonials js_rem_nonneg)
next
  case (ClickDot index)
  with assms show ?thesis
    by (auto simp: index_in_bounds_def goToSlide_def length_testimonials)
qed

lemma index_in_bounds_mount: "index_in_bounds mount"
  by (simp add: index_in_bounds_def mount_def run_effect_def)

lemma index_in_bounds_run:
  "index_in_bounds s \<Longrightarrow> list_all event_exists es \<Longrightarrow> index_in_bounds (carousel_run es s)"
  by (induction es arbitrary: s) (simp_all add: index_in_bounds_step)

lemma in_bounds_lookup:
  "index_in_bounds s \<Longrightarrow> currentTestimonial s = Some (testimonials ! nat (currentIndex s))"
  by (simp add: index_in_bounds_def currentTestimonial_def length_testimonials)

lemma interval_fires_from_mount:
  "(interval_fires ^^ k) mount = mount\<lparr>currentIndex := int (k mod 4)\<rparr>"
proof (induction k)
  case 0
  show ?case by (simp add: mount_def run_effect_def)
next
  case (Suc k)
  have active: "intervalActive (mount\<lparr>currentIndex := int (k mod 4)\<rparr>)"
    by (simp add: mount_def run_effect_def)
  have "js_rem (int (k mod 4) + 1) 4 = (int (k mod 4) + 1) mod 4"
    by (rule js_rem_nonneg) simp_all
  also have "\<dots> = int (Suc k mod 4)"
    by (simp add: zmod_int mod_simps ac_simps)
  finally have next_index: "js_rem (int (k mod 4) + 1) 4 = int (Suc k mod 4)" .
  have "(interval_fires ^^ Suc k) mount = interval_fires (mount\<lparr>currentIndex := int (k mod 4)\<rparr>)"
    using Suc.IH by simp
  also have "\<dots> = mount\<lparr>currentIndex := int (Suc k mod 4)\<rparr>"
    using active next_index by (simp add: interval_fires_def length_testimonials)
  finally show ?case .
qed

text \<open>
  Claim C5. The carousel starts at index 0 and has 4 items. Each firing of the auto-advance
  interval replaces the index \<open>i\<close> by \<open>(i + 1) % 4\<close>: on an index within the array that is
  \<open>i + 1\<close> below 3 and 0 at 3, so after 3 untouched firings the index is 3, after 4 it is 0
  again, and after \<open>k\<close> it is \<open>k mod 4\<close>. Once the pointer has entered the carousel, the
  interval is cleared: however many interval periods pass, the index stays what it was.
\<close>

theorem carousel_auto_advance:
  "currentIndex mount = 0 \<and> length testimonials = 4
   \<and> (intervalActive s \<longrightarrow>
        currentIndex (interval_fires s) = js_rem (currentIndex s + 1) 4)
   \<and> (intervalActive s \<and> index_in_bounds s \<longrightarrow>
        currentIndex (interval_fires s) = (currentIndex s + 1) mod 4
        \<and> currentIndex (interval_fires s) = (if currentIndex s = 3 then 0 else currentIndex s + 1))
   \<and> currentIndex (interval_fires (interval_fires (interval_fires mount))) = 3
   \<and> currentIndex (interval_fires (interval_fires (interval_fires (interval_fires mount)))) = 0
   \<and> currentIndex ((interval_fires ^^ k) mount) = int (k mod 4)
   \<and> (effect_in_sync s \<longrightarrow>
        isPaused (carousel_step MouseEnter s)
        \<and> \<not> intervalActive (carousel_step MouseEnter s)
        \<and> currentIndex ((interval_fires ^^ n) (carousel_step MouseEnter s)) = currentIndex s)"
proof -
  have a: "currentIndex mount = 0"
    by (simp add: mount_def run_effect_def)
  have b: "intervalActive s \<longrightarrow>
      currentIndex (interval_fires s) = js_rem (currentIndex s + 1) 4"
    by (simp add: interval_fires_def length_testimonials)
  have wrap: "intervalActive s \<and> index_in_bounds s \<longrightarrow>
        currentIndex (interval_fires s) = (currentIndex s + 1) mod 4
        \<and> currentIndex (interval_fires s) = (if currentIndex s = 3 then 0 else currentIndex s + 1)"
  proof
    assume h: "intervalActive s \<and> index_in_bounds s"
    then have range: "0 \<le> currentIndex s" "currentIndex s < 4"
      by (simp_all add: index_in_bounds_def)
    have "currentIndex (interval_fires s) = js_rem (currentIndex s + 1) 4"
      using h by (simp add: interval_fires_def length_testimonials)
    also have "\<dots> = (currentIndex s + 1) mod 4"
      using range by (simp add: js_rem_nonneg)
    finally have m: "currentIndex (interval_fires s) = (currentIndex s + 1) mod 4" .
    have "(currentIndex s + 1) mod 4 = (if currentIndex s = 3 then 0 else currentIndex s + 1)"
      using range by simp
    with m show "currentIndex (interval_fires s) = (currentIndex s + 1) mod 4
        \<and> currentIndex (interval_fires s) = (if currentIndex s = 3 then 0 else currentIndex s + 1)"
      by simp
  qed
  have c: "currentIndex (interval_fires (interval_fires (interval_fires mount))) = 3"
    by (simp add: interval_fires_def mount_def run_effect_def length_testimonials js_rem_def)
  have c4: "currentIndex (interval_fires (interval_fires (interval_fires (interval_fires mount)))) = 0"
    by (simp add: interval_fires_def mount_def run_effect_def length_testimonials js_rem_def)
  have ck: "currentIndex ((interval_fires ^^ k) mount) = int (k mod 4)"
    by (simp add: interval_fires_from_mount)
  have d: "effect_in_sync s \<longrightarrow>
        isPaused (carousel_step MouseEnter s)
        \<and> \<not> intervalActive (carousel_step MouseEnter s)
        \<and> currentIndex ((interval_fires ^^ n) (carousel_step MouseEnter s)) = currentIndex s"
  proof
    assume sync: "effect_in_sync s"
    have off: "\<not> intervalActive (setIsPaused True s)"
      using sync by (rule hover_stops_interval)
    have "(interval_fires ^^ n) (setIsPaused True s) = setIsPaused True s"
      using off by (rule interval_fires_paused)
    moreover have "currentIndex (setIsPaused True s) = currentIndex s"
      by (simp add: setIsPaused_def run_effect_def)
    moreover have "isPaused (setIsPaused True s)"
      by (simp add: setIsPaused_def run_effect_def)
    ultimately show "isPaused (carousel_step MouseEnter s)
        \<and> \<not> intervalActive (carousel_step MouseEnter s)
        \<and> currentIndex ((interval_fires ^^ n) (carousel_step MouseEnter s)) = currentIndex s"
      using off by simp
  qed
  from a b wrap c c4 ck d length_testimonials show ?thesis by blast
qed

theorem carousel_auto_advance_witness:
  "intervalActive mount \<and> effect_in_sync mount
   \<and> currentIndex (interval_fires mount) = 1
   \<and> currentIndex ((interval_fires ^^ 3) (carousel_step MouseEnter (interval_fires mount))) = 1
   \<and> intervalActive (mount\<lparr>currentIndex := 3\<rparr>) \<and> index_in_bounds (mount\<lparr>currentIndex := 3\<rparr>)
   \<and> currentIndex (interval_fires (mount\<lparr>currentIndex := 3\<rparr>)) = 0
   \<and> currentIndex ((interval_fires ^^ 7) mount) = 3"
proof -
  have ia: "intervalActive (interval_fires mount)" "intervalActive mount"
    by (simp_all add: interval_fires_def mount_def run_effect_def)
  have sync: "effect_in_sync (interval_fires mount)" "effect_in_sync mount"
    by (simp_all add: effect_in_sync_def interval_fires_def mount_def run_effect_def)
  have one: "currentIndex (interval_fires mount) = 1"
    using carousel_auto_advance [of mount 0 0] ia by (simp add: js_rem_def)
  have hover: "currentIndex ((interval_fires ^^ 3) (carousel_step MouseEnter (interval_fires mount))) = 1"
    using carousel_auto_advance [of "interval_fires mount" 0 3] sync one by simp
  have at3: "intervalActive (mount\<lparr>currentIndex := 3\<rparr>)" "index_in_bounds (mount\<lparr>currentIndex := 3\<rparr>)"
    by (simp_all add: mount_def run_effect_def index_in_bounds_def)
  have wrap: "currentIndex (interval_fires (mount\<lparr>currentIndex := 3\<rparr>)) = 0"
    using carousel_auto_advance [of "mount\<lparr>currentIndex := 3\<rparr>" 0 0] at3 by simp
  have seven: "currentIndex ((interval_fires ^^ 7) mount) = 3"
    using carousel_auto_advance [of mount 7 0] by simp
  from ia sync one hover at3 wrap seven show ?thesis by blast
qed

text \<open>
  Claim C8. Every update of the carousel state (the interval's tick, goToNext, goToPrevious,
  goToSlide with the index of a dot, and the two hover handlers) keeps
  \<open>0 \<le> currentIndex < 4\<close>, the initial state satisfies it, and under it the lookup
  \<open>testimonials[currentIndex]\<close> is an element of the array. goToPrevious at index 0 gives 3.
\<close>

theorem carousel_index_in_bounds:
  "index_in_bounds mount
   \<and> (index_in_bounds s \<and> event_exists e \<longrightarrow>
        index_in_bounds (carousel_step e s)
        \<and> currentTestimonial (carousel_step e s) \<noteq> None)
   \<and> (list_all event_exists es \<longrightarrow>
        index_in_bounds (carousel_run es mount)
        \<and> currentTestimonial (carousel_run es mount) \<noteq> None)
   \<and> currentIndex (goToPrevious (s\<lparr>currentIndex := 0\<rparr>)) = 3"
proof -
  have prev0: "currentIndex (goToPrevious (s\<lparr>currentIndex := 0\<rparr>)) = 3"
    by (simp add: goToPrevious_def length_testimonials js_rem_def)
  have step: "index_in_bounds s \<and> event_exists e \<longrightarrow>
        index_in_bounds (carousel_step e s)
        \<and> currentTestimonial (carousel_step e s) \<noteq> None"
    using index_in_bounds_step [of s e] in_bounds_lookup [of "carousel_step e s"] by simp
  have run: "list_all event_exists es \<longrightarrow>
        index_in_bounds (carousel_run es mount)
        \<and> currentTestimonial (carousel_run es mount) \<noteq> None"
    using index_in_bounds_run [OF index_in_bounds_mount, of es]
      in_bounds_lookup [of "carousel_run es mount"] by simp
  from index_in_bounds_mount step run prev0 show ?thesis by blast
qed

theorem carousel_index_in_bounds_witness:
  "index_in_bounds mount \<and> event_exists ClickPrevious
   \<and> list_all event_exists [ClickPrevious, ClickDot 2, IntervalFires, MouseEnter, ClickNext]
   \<and> currentIndex (carousel_step ClickPrevious mount) = 3
   \<and> currentTestimonial (carousel_step ClickPrevious mount) \<noteq> None
   \<and> currentIndex
        (carousel_run [ClickPrevious, ClickDot 2, IntervalFires, MouseEnter, ClickNext] mount) = 0
   \<and> index_in_bounds
        (carousel_run [ClickPrevious, ClickDot 2, IntervalFires, MouseEnter, ClickNext] mount)"
proof -
  have ev: "list_all event_exists
      [ClickPrevious, ClickDot 2, IntervalFires, MouseEnter, ClickNext]"
    by (simp add: length_testimonials)
  have v: "currentIndex (carousel_step ClickPrevious mount) = 3"
    by (simp add: goToPrevious_def mount_def run_effect_def length_testimonials js_rem_def)
  have r: "currentIndex
      (carousel_run [ClickPrevious, ClickDot 2, IntervalFires, MouseEnter, ClickNext] mount) = 0"
    by (simp add: goToPrevious_def goToNext_def goToSlide_def interval_fires_def
        setIsPaused_def mount_def run_effect_def length_testimonials js_rem_def)
  show ?thesis
    using carousel_index_in_bounds
      [of mount ClickPrevious "[ClickPrevious, ClickDot 2, IntervalFires, MouseEnter, ClickNext]"]
      ev v r by simp
qed

section \<open>Facts about the shell\<close>

lemma tab_ids:
  "map tab_id tabs = [''playground'', ''status'', ''features'', ''config'', ''feedback'']"
  by (simp add: tabs_def)

lemma click_tabs_in_tabs:
  "set clicks \<subseteq> set tabs \<Longrightarrow> activeTab \<in> set (map tab_id tabs)
   \<Longrightarrow> click_tabs clicks activeTab \<in> set (map tab_id tabs)"
  by (induction clicks arbitrary: activeTab) (auto simp: click_tab_def)

lemma initial_in_tabs: "initial_activeTab \<in> set (map tab_id tabs)"
  by (simp add: tab_ids initial_activeTab_def)

text \<open>
  Claim C3. The shell has exactly the five tab states playground, status, features, config
  and feedback: the initial state is playground, every state reached by clicking tabs is one
  of the five, and each of the five is reached by one click. The only transition, a click on
  a tab, sets the active state to that tab's id whatever the state was.
\<close>

theorem shell_tab_state_machine:
  "map tab_id tabs = [''playground'', ''status'', ''features'', ''config'', ''feedback'']
   \<and> distinct (map tab_id tabs)
   \<and> initial_activeTab = ''playground''
   \<and> (\<forall>tab \<in> set tabs. \<forall>activeTab. click_tab tab activeTab = tab_id tab)
   \<and> (set clicks \<subseteq> set tabs \<longrightarrow>
        click_tabs clicks initial_activeTab \<in> set (map tab_id tabs))
   \<and> (\<forall>tab \<in> set tabs. click_tabs [tab] initial_activeTab = tab_id tab)"
proof -
  have d: "distinct (map tab_id tabs)"
    by (simp add: tab_ids)
  have r: "set clicks \<subseteq> set tabs \<longrightarrow>
        click_tabs clicks initial_activeTab \<in> set (map tab_id tabs)"
    using click_tabs_in_tabs [OF _ initial_in_tabs] by blast
  show ?thesis
    using tab_ids d r by (simp add: initial_activeTab_def click_tab_def)
qed

theorem shell_tab_state_machine_witness:
  "tabs ! 3 \<in> set tabs \<and> set [tabs ! 3, tabs ! 1] \<subseteq> set tabs
   \<and> click_tab (tabs ! 3) ''status'' = ''config''
   \<and> click_tabs [tabs ! 3, tabs ! 1] initial_activeTab = ''status''
   \<and> click_tabs [tabs ! 3] initial_activeTab = ''config''"
proof -
  have m: "tabs ! 3 \<in> set tabs" "tabs ! 1 \<in> set tabs"
    by (simp_all add: tabs_def nth_Cons')
  have i: "tab_id (tabs ! 3) = ''config''" "tab_id (tabs ! 1) = ''status''"
    by (simp_all add: tabs_def nth_Cons')
  have c: "click_tabs [tabs ! 3, tabs ! 1] initial_activeTab = ''status''"
    by (simp add: click_tab_def tabs_def nth_Cons')
  show ?thesis
    using shell_tab_state_machine [of "[tabs ! 3, tabs ! 1]"] m i c by simp
qed

text \<open>
  Claim C4. In each of the five tab states the content area renders exactly one subtree:
  the chat demo, the status dashboard, the feature comparison, the config preview, and for
  feedback one grid element that holds the feedback form and the testimonials.
\<close>

theorem shell_renders_one_subtree:
  "(\<forall>activeTab \<in> set (map tab_id tabs). length (rendered_content activeTab) = 1)
   \<and> rendered_content ''playground'' = [Component ''ChatDemo'']
   \<and> rendered_content ''status'' = [Component ''StatusDashboard'']
   \<and> rendered_content ''features'' = [Component ''FeatureComparison'']
   \<and> rendered_content ''config'' = [Component ''ConfigPreview'']
   \<and> rendered_content ''feedback''
       = [Div [Component ''FeedbackForm'', Component ''Testimonials'']]"
  by (simp add: tab_ids rendered_content_def content_children_def List.map_filter_simps)

theorem shell_renders_one_subtree_witness:
  "''feedback'' \<in> set (map tab_id tabs)
   \<and> length (rendered_content ''feedback'') = 1
   \<and> length (rendered_content (click_tabs [tabs ! 2] initial_activeTab)) = 1"
proof -
  have f: "''feedback'' \<in> set (map tab_id tabs)" "''features'' \<in> set (map tab_id tabs)"
    by (simp_all add: tab_ids)
  have c: "click_tabs [tabs ! 2] initial_activeTab = ''features''"
    by (simp add: click_tab_def tabs_def nth_Cons')
  show ?thesis
    using shell_renders_one_subtree f c by simp
qed

section \<open>Facts about the configuration preview\<close>

text \<open>
  Claim C7. The snapshot is a function of the current configuration alone: its model,
  temperature and max_tokens are the configuration's model, temperature and maxTokens. After
  a model is selected or a slider is moved, the snapshot of the next render shows the new
  value, whatever the earlier events were.
\<close>

theorem preview_reflects_config:
  "pv_model (generateConfigPreview config) = model config
   \<and> p_temperature (pv_parameters (generateConfigPreview config)) = temperature config
   \<and> p_max_tokens (pv_parameters (generateConfigPreview config)) = maxTokens config
   \<and> pv_model (shown_preview (events @ [SelectModel m])) = m
   \<and> p_temperature (pv_parameters (shown_preview (events @ [SlideTemperature t]))) = t
   \<and> p_max_tokens (pv_parameters (shown_preview (events @ [SlideMaxTokens n]))) = n"
  by (simp add: generateConfigPreview_def shown_preview_def)

theorem preview_reflects_config_witness:
  "pv_model (generateConfigPreview default_config) = ''zai/glm-4.7''
   \<and> p_temperature (pv_parameters (generateConfigPreview default_config)) = 0.7
   \<and> p_max_tokens (pv_parameters (generateConfigPreview default_config)) = 4096
   \<and> pv_model (shown_preview ([SlideMaxTokens 512, ClickReset] @ [SelectModel ''zai/glm-4.7-flash'']))
       = ''zai/glm-4.7-flash''
   \<and> p_max_tokens (pv_parameters (shown_preview [SlideMaxTokens 512, ClickReset])) = 4096"
proof -
  have r: "p_max_tokens (pv_parameters (shown_preview [SlideMaxTokens 512, ClickReset])) = 4096"
    by (simp add: shown_preview_def generateConfigPreview_def default_config_def)
  show ?thesis
    using preview_reflects_config
      [of default_config "[SlideMaxTokens 512, ClickReset]" "''zai/glm-4.7-flash''"] r
    by (simp add: default_config_def)
qed

text \<open>
  Claim C9. For each of the boolean keys streaming, thinking and agentRouting,
  \<open>toggleSetting\<close> negates the field of that key and leaves model, temperature, maxTokens
  and the other two booleans as they were.
\<close>

theorem toggleSetting_frame:
  "read_key key (toggleSetting key config) = (\<not> read_key key config)
   \<and> (other \<noteq> key \<longrightarrow> read_key other (toggleSetting key config) = read_key other config)
   \<and> model (toggleSetting key config) = model config
   \<and> temperature (toggleSetting key config) = temperature config
   \<and> maxTokens (toggleSetting key config) = maxTokens config"
  by (cases key; cases other) (simp_all add: toggleSetting_def)

theorem toggleSetting_frame_witness:
  "Streaming \<noteq> Thinking
   \<and> thinking (toggleSetting Thinking default_config)
   \<and> streaming (toggleSetting Thinking default_config)
   \<and> agentRouting (toggleSetting Thinking default_config)
   \<and> model (toggleSetting Thinking default_config) = ''zai/glm-4.7''
   \<and> maxTokens (toggleSetting Thinking default_config) = 4096"
  using toggleSetting_frame [of Thinking default_config Streaming]
    toggleSetting_frame [of Thinking default_config AgentRouting]
  by (simp add: default_config_def)

section \<open>Facts about the chat demo\<close>

lemma dropWhile_all: "\<forall>c \<in> set s. P c \<Longrightarrow> dropWhile P s = []"
  by (induction s) simp_all

lemma trim_whitespace: "\<forall>c \<in> set s. js_whitespace c \<Longrightarrow> trim s = []"
  by (simp add: trim_def dropWhile_all)

lemma trim_empty_iff: "trim s = [] \<longleftrightarrow> (\<forall>c \<in> set s. js_whitespace c)"
proof
  assume t: "trim s = []"
  then have "dropWhile js_whitespace (rev (dropWhile js_whitespace s)) = []"
    by (simp add: trim_def)
  then have rest: "\<forall>c \<in> set (dropWhile js_whitespace s). js_whitespace c"
    by (simp add: dropWhile_eq_Nil_conv)
  have "dropWhile js_whitespace s = []"
  proof (rule ccontr)
    assume ne: "dropWhile js_whitespace s \<noteq> []"
    then have "\<not> js_whitespace (hd (dropWhile js_whitespace s))"
      by (rule hd_dropWhile)
    moreover have "hd (dropWhile js_whitespace s) \<in> set (dropWhile js_whitespace s)"
      using ne by simp
    ultimately show False
      using rest by blast
  qed
  then show "\<forall>c \<in> set s. js_whitespace c"
    by (simp add: dropWhile_eq_Nil_conv)
next
  assume "\<forall>c \<in> set s. js_whitespace c"
  then show "trim s = []" by (rule trim_whitespace)
qed

text \<open>
  Claim C10. When the chat input is empty or holds white space only, submitting the form
  leaves the whole component state as it was: no message is appended, no reply is scheduled,
  the input is not cleared and the typing indicator is not switched on.
\<close>

theorem handleSend_blank_input:
  assumes "\<forall>c \<in> set (input s). js_whitespace c"
  shows "handleSend date_now new_date random s = s
         \<and> messages (handleSend date_now new_date random s) = messages s
         \<and> scheduled (handleSend date_now new_date random s) = scheduled s
         \<and> input (handleSend date_now new_date random s) = input s
         \<and> isTyping (handleSend date_now new_date random s) = isTyping s"
proof -
  have "trim (input s) = []"
    using assms by (rule trim_whitespace)
  then have "handleSend date_now new_date random s = s"
    by (simp add: handleSend_def)
  then show ?thesis by simp
qed

theorem handleSend_blank_input_witness:
  "list_all js_whitespace (input ((initial_chat 0)\<lparr>input := js [CHR '' '', CHR 0x09, CHR '' '']\<rparr>))
   \<and> handleSend 5 6 0.5 ((initial_chat 0)\<lparr>input := js [CHR '' '', CHR 0x09, CHR '' '']\<rparr>)
       = (initial_chat 0)\<lparr>input := js [CHR '' '', CHR 0x09, CHR '' '']\<rparr>
   \<and> \<not> isTyping
         (handleSend 5 6 0.5 ((initial_chat 0)\<lparr>input := js [CHR '' '', CHR 0x09, CHR '' '']\<rparr>))
   \<and> handleSend 5 6 0.5 (initial_chat 0) = initial_chat 0"
proof -
  have blank: "\<forall>c \<in> set (input ((initial_chat 0)\<lparr>input := js [CHR '' '', CHR 0x09, CHR '' '']\<rparr>)).
       js_whitespace c"
    by (simp add: js_def js_whitespace_def)
  have empty: "\<forall>c \<in> set (input (initial_chat 0)). js_whitespace c"
    by (simp add: initial_chat_def)
  have off: "\<not> isTyping ((initial_chat 0)\<lparr>input := js [CHR '' '', CHR 0x09, CHR '' '']\<rparr>)"
    by (simp add: initial_chat_def)
  show ?thesis
    using handleSend_blank_input [OF blank, of 5 6 "0.5"]
      handleSend_blank_input [OF empty, of 5 6 "0.5"] blank off
    by (simp add: list_all_iff)
qed

section \<open>Facts about the feedback form\<close>

lemma valid_email_address_nonempty: "valid_email_address v \<Longrightarrow> v \<noteq> []"
  by (auto simp: valid_email_address_def)

lemma handleSubmit_keeps_feedback: "feedback (submit_form s) = feedback s"
  by (simp add: submit_form_def handleSubmit_def)

lemma reset_returns_to_form:
  "render_form (reset_fires (handleSubmit s)) = FormView (feedback s)"
  by (simp add: render_form_def reset_fires_def handleSubmit_def)

text \<open>
  Claim C6, as the specification states it, fails: with name \<open>Ann\<close>, email \<open>ann\<close> and message
  \<open>Hello\<close> every required field is populated, yet the submission is rejected, because the
  email input is of type \<open>email\<close> and \<open>ann\<close> is not an e-mail address.
\<close>

theorem feedback_populated_rejected:
  "name (feedback (filled_form ''Ann'' ''ann'' ''Hello'')) \<noteq> []
   \<and> email (feedback (filled_form ''Ann'' ''ann'' ''Hello'')) \<noteq> []
   \<and> message (feedback (filled_form ''Ann'' ''ann'' ''Hello'')) \<noteq> []
   \<and> submit_form (filled_form ''Ann'' ''ann'' ''Hello'') = filled_form ''Ann'' ''ann'' ''Hello''
   \<and> \<not> submitted (submit_form (filled_form ''Ann'' ''ann'' ''Hello''))
   \<and> render_form (submit_form (filled_form ''Ann'' ''ann'' ''Hello'')) \<noteq> ThankYou"
  by (simp add: filled_form_def initial_form_def js_def submit_form_def form_valid_def
      valid_email_address_def render_form_def)

text \<open>
  Claim C6, amended. The form rejects the submission when the message field is empty: the
  state is unchanged and the form stays on the screen. When name and message are not empty
  and email holds a valid e-mail address, the submission is accepted and the component shows
  the success state.
\<close>

theorem feedback_form_validation:
  "(message (feedback s) = [] \<longrightarrow>
      submit_form s = s
      \<and> (\<not> submitted s \<longrightarrow> render_form (submit_form s) = FormView (feedback s)))
   \<and> (\<not> submitted s \<and> name (feedback s) \<noteq> [] \<and> valid_email_address (email (feedback s))
        \<and> message (feedback s) \<noteq> [] \<longrightarrow>
      submitted (submit_form s) \<and> render_form (submit_form s) = ThankYou)"
proof -
  have rej: "message (feedback s) = [] \<longrightarrow>
      submit_form s = s
      \<and> (\<not> submitted s \<longrightarrow> render_form (submit_form s) = FormView (feedback s))"
    by (simp add: submit_form_def form_valid_def render_form_def)
  have acc: "\<not> submitted s \<and> name (feedback s) \<noteq> [] \<and> valid_email_address (email (feedback s))
        \<and> message (feedback s) \<noteq> [] \<longrightarrow>
      submitted (submit_form s) \<and> render_form (submit_form s) = ThankYou"
    using valid_email_address_nonempty [of "email (feedback s)"]
    by (auto simp: submit_form_def form_valid_def render_form_def handleSubmit_def)
  from rej acc show ?thesis by blast
qed

theorem feedback_form_validation_witness:
  "message (feedback (filled_form ''Ann'' ''ann@example.com'' [])) = []
   \<and> \<not> submitted (filled_form ''Ann'' ''ann@example.com'' [])
   \<and> render_form (submit_form (filled_form ''Ann'' ''ann@example.com'' []))
       = FormView (feedback (filled_form ''Ann'' ''ann@example.com'' []))
   \<and> \<not> submitted (filled_form ''Ann'' ''ann@example.com'' ''Hello'')
   \<and> name (feedback (filled_form ''Ann'' ''ann@example.com'' ''Hello'')) \<noteq> []
   \<and> valid_email_address (email (feedback (filled_form ''Ann'' ''ann@example.com'' ''Hello'')))
   \<and> message (feedback (filled_form ''Ann'' ''ann@example.com'' ''Hello'')) \<noteq> []
   \<and> submitted (submit_form (filled_form ''Ann'' ''ann@example.com'' ''Hello''))
   \<and> render_form (submit_form (filled_form ''Ann'' ''ann@example.com'' ''Hello'')) = ThankYou"
proof -
  have e: "valid_email_address (email (feedback (filled_form ''Ann'' ''ann@example.com'' ''Hello'')))"
    by (simp add: filled_form_def initial_form_def js_def valid_email_address_def
        is_local_char_def is_label_def is_letter_or_digit_def)
  have f: "\<not> submitted (filled_form ''Ann'' ''ann@example.com'' ''Hello'')"
    "name (feedback (filled_form ''Ann'' ''ann@example.com'' ''Hello'')) \<noteq> []"
    "message (feedback (filled_form ''Ann'' ''ann@example.com'' ''Hello'')) \<noteq> []"
    "message (feedback (filled_form ''Ann'' ''ann@example.com'' [])) = []"
    "\<not> submitted (filled_form ''Ann'' ''ann@example.com'' [])"
    by (simp_all add: filled_form_def initial_form_def js_def)
  have accepted: "submitted (submit_form (filled_form ''Ann'' ''ann@example.com'' ''Hello''))
      \<and> render_form (submit_form (filled_form ''Ann'' ''ann@example.com'' ''Hello'')) = ThankYou"
    using feedback_form_validation [of "filled_form ''Ann'' ''ann@example.com'' ''Hello''"] e f
    by blast
  have rejected: "render_form (submit_form (filled_form ''Ann'' ''ann@example.com'' []))
      = FormView (feedback (filled_form ''Ann'' ''ann@example.com'' []))"
    using feedback_form_validation [of "filled_form ''Ann'' ''ann@example.com'' []"] f
    by blast
  from accepted rejected e f show ?thesis
    by blast
qed

section \<open>Facts about the site index\<close>

lemma precedes_total: "precedes a b \<or> precedes b a"
  by (auto simp: precedes_def)

lemma precedes_trans: "precedes a b \<Longrightarrow> precedes b c \<Longrightarrow> precedes a c"
  by (auto simp: precedes_def)

lemma precedes_antisym:
  "precedes a b \<Longrightarrow> precedes b a \<Longrightarrow> date a = date b \<and> slug a = slug b"
  by (auto simp: precedes_def)

lemma set_insert_item: "set (insert_item x ys) = insert x (set ys)"
  by (induction ys) auto

lemma mset_insert_item: "mset (insert_item x ys) = add_mset x (mset ys)"
  by (induction ys) auto

lemma sorted_insert_item:
  "sorted_wrt precedes ys \<Longrightarrow> sorted_wrt precedes (insert_item x ys)"
proof (induction ys)
  case Nil
  then show ?case by simp
next
  case (Cons y ys)
  show ?case
  proof (cases "precedes x y")
    case True
    then have "\<forall>z \<in> set ys. precedes x z"
      using Cons.prems by (auto intro: precedes_trans)
    with True Cons.prems show ?thesis by simp
  next
    case False
    then have "precedes y x"
      using precedes_total [of x y] by simp
    with False Cons show ?thesis
      by (auto simp: set_insert_item)
  qed
qed

lemma mset_site_index: "mset (site_index items) = mset items"
  by (induction items) (simp_all add: site_index_def mset_insert_item)

lemma sorted_site_index: "sorted_wrt precedes (site_index items)"
  by (induction items) (simp_all add: site_index_def sorted_insert_item)

lemma insert_item_first:
  "\<forall>y \<in> set ys. precedes x y \<Longrightarrow> insert_item x ys = x # ys"
  by (cases ys) simp_all

lemma site_index_sorted_id: "sorted_wrt precedes items \<Longrightarrow> site_index items = items"
proof (induction items)
  case Nil
  then show ?case by (simp add: site_index_def)
next
  case (Cons x xs)
  then have "site_index xs = xs" by simp
  moreover have "\<forall>y \<in> set xs. precedes x y"
    using Cons.prems by simp
  ultimately show ?case
    by (simp add: site_index_def insert_item_first)
qed

lemma site_index_idem: "site_index (site_index items) = site_index items"
  by (rule site_index_sorted_id) (rule sorted_site_index)

lemma sorted_unique:
  "sorted_wrt precedes xs \<Longrightarrow> sorted_wrt precedes ys \<Longrightarrow> mset xs = mset ys
   \<Longrightarrow> distinct (map slug xs) \<Longrightarrow> xs = ys"
proof (induction xs arbitrary: ys)
  case Nil
  then show ?case by simp
next
  case (Cons x xs)
  from Cons.prems(3) obtain y ys' where ys: "ys = y # ys'"
    by (cases ys) auto
  have xy: "x = y"
  proof (rule ccontr)
    assume ne: "x \<noteq> y"
    have "x \<in># mset ys" using Cons.prems(3) by (metis union_single_eq_member mset.simps(2) add_mset_add_single)
    then have "x \<in> set ys'" using ne ys by auto
    then have yx: "precedes y x" using Cons.prems(2) ys by simp
    have "y \<in># mset (x # xs)" using Cons.prems(3) ys by simp
    then have yin: "y \<in> set xs" using ne by auto
    then have "precedes x y" using Cons.prems(1) by simp
    with yx have "slug x = slug y" using precedes_antisym by blast
    moreover have "slug x \<notin> slug ` set xs" using Cons.prems(4) by simp
    ultimately show False using yin by auto
  qed
  have "xs = ys'"
  proof (rule Cons.IH)
    show "sorted_wrt precedes xs" using Cons.prems(1) by simp
    show "sorted_wrt precedes ys'" using Cons.prems(2) ys by simp
    show "mset xs = mset ys'" using Cons.prems(3) ys xy by simp
    show "distinct (map slug xs)" using Cons.prems(4) by simp
  qed
  with xy ys show ?case by simp
qed

lemma site_index_order_independent:
  assumes "mset items' = mset items" and "distinct (map slug items)"
  shows "site_index items' = site_index items"
proof -
  have "mset (map slug (site_index items)) = mset (map slug items)"
    by (simp add: mset_site_index)
  then have "distinct (map slug (site_index items))"
    using assms(2) by (metis mset_eq_imp_distinct_iff)
  moreover have "mset (site_index items) = mset (site_index items')"
    using assms(1) by (simp add: mset_site_index)
  ultimately show ?thesis
    using sorted_unique [OF sorted_site_index sorted_site_index] by metis
qed

text \<open>
  Claim C1. On every build the site index is sorted by date descending, equal dates by slug
  ascending, and holds every valid item; the discovery index, the feed and the sitemap list
  the pages in that order. The ordering is idempotent, and with unique slugs the three
  documents depend on the set of items only, not on the order in which the files were read,
  so a second build over unchanged input gives the same documents. Items dated 2026-02-16
  (slug b) and 2026-02-14 (slug a) are listed b before a.
\<close>

theorem site_index_total_order:
  "sorted_wrt precedes (site_index items)
   \<and> mset (site_index items) = mset items
   \<and> map ref_slug (discovery_index sec items) = map slug (site_index items)
   \<and> map ref_slug (feed sec items) = map slug (site_index items)
   \<and> sitemap sec items = map (html_path sec) (map slug (site_index items))
   \<and> site_index (site_index items) = site_index items
   \<and> (mset items' = mset items \<and> distinct (map slug items) \<longrightarrow>
        discovery_index sec items' = discovery_index sec items
        \<and> feed sec items' = feed sec items
        \<and> sitemap sec items' = sitemap sec items)
   \<and> (date a = (2026, 2, 14) \<and> slug a = ''a'' \<and> date b = (2026, 2, 16) \<and> slug b = ''b'' \<longrightarrow>
        map ref_slug (discovery_index sec [a, b]) = [''b'', ''a'']
        \<and> map ref_slug (discovery_index sec [b, a]) = [''b'', ''a''])"
proof -
  have docs: "map ref_slug (discovery_index sec items) = map slug (site_index items)"
    "map ref_slug (feed sec items) = map slug (site_index items)"
    "sitemap sec items = map (html_path sec) (map slug (site_index items))"
    by (simp_all add: discovery_index_def feed_def sitemap_def page_ref_def)
  have again: "mset items' = mset items \<and> distinct (map slug items) \<longrightarrow>
        discovery_index sec items' = discovery_index sec items
        \<and> feed sec items' = feed sec items
        \<and> sitemap sec items' = sitemap sec items"
    using site_index_order_independent [of items' items]
    by (simp add: discovery_index_def feed_def sitemap_def)
  have scenario: "date a = (2026, 2, 14) \<and> slug a = ''a'' \<and> date b = (2026, 2, 16) \<and> slug b = ''b'' \<longrightarrow>
        map ref_slug (discovery_index sec [a, b]) = [''b'', ''a'']
        \<and> map ref_slug (discovery_index sec [b, a]) = [''b'', ''a'']"
    by (simp add: discovery_index_def site_index_def precedes_def page_ref_def)
  from sorted_site_index [of items] mset_site_index [of items] docs
    site_index_idem [of items] again scenario
  show ?thesis by blast
qed

theorem site_index_total_order_witness:
  "mset [post_b, post_a] = mset [post_a, post_b]
   \<and> distinct (map slug [post_a, post_b])
   \<and> date post_a = (2026, 2, 14) \<and> slug post_a = ''a''
   \<and> date post_b = (2026, 2, 16) \<and> slug post_b = ''b''
   \<and> map ref_slug (discovery_index ''blog'' [post_a, post_b]) = [''b'', ''a'']
   \<and> discovery_index ''blog'' [post_b, post_a] = discovery_index ''blog'' [post_a, post_b]
   \<and> sitemap ''blog'' [post_a, post_b] = [''/blog/b.html'', ''/blog/a.html'']"
proof -
  have m: "mset [post_b, post_a] = mset [post_a, post_b]"
    by simp
  have d: "distinct (map slug [post_a, post_b])"
    "date post_a = (2026, 2, 14)" "slug post_a = ''a''"
    "date post_b = (2026, 2, 16)" "slug post_b = ''b''"
    by (simp_all add: post_a_def post_b_def)
  have listed: "map ref_slug (discovery_index ''blog'' [post_a, post_b]) = [''b'', ''a'']"
    using site_index_total_order [of "[post_a, post_b]" "''blog''" "[post_b, post_a]" post_a post_b] d
    by blast
  have same: "discovery_index ''blog'' [post_b, post_a] = discovery_index ''blog'' [post_a, post_b]"
    using site_index_total_order [of "[post_a, post_b]" "''blog''" "[post_b, post_a]" post_a post_b] m d
    by blast
  have "map slug (site_index [post_a, post_b]) = [''b'', ''a'']"
    using site_index_total_order [of "[post_a, post_b]" "''blog''" "[post_b, post_a]" post_a post_b]
      listed by simp
  moreover have "sitemap ''blog'' [post_a, post_b]
      = map (html_path ''blog'') (map slug (site_index [post_a, post_b]))"
    using site_index_total_order [of "[post_a, post_b]" "''blog''" "[post_b, post_a]" post_a post_b]
    by blast
  ultimately have sm: "sitemap ''blog'' [post_a, post_b] = [''/blog/b.html'', ''/blog/a.html'']"
    by (simp add: html_path_def)
  from m d listed same sm show ?thesis by blast
qed

section \<open>Facts about the renderer and the assembler\<close>





















end
